theory Spec2Isabelle
  imports Main "HOL-Library.AList" "HOL-Library.Sublist"
begin

section \<open>JavaScript values, functions and objects\<close>

text \<open>
  Payloads are opaque to the library; the model keeps just enough of JavaScript's values
  to tell them apart. \<open>JPending n\<close> is a pending result (a promise) identified by
  \<open>n\<close>; \<open>JTypeError\<close> is the error thrown by a property read on \<open>undefined\<close>
  and by a call of something that is not a function.
\<close>

datatype jsval =
    JUndefined
  | JNull
  | JNum int
  | JStr string
  | JObj "(string \<times> jsval) list"
  | JPending nat
  | JTypeError

text \<open>A call either throws (\<open>Inl\<close> the thrown value) or returns (\<open>Inr\<close>).\<close>

type_synonym 'a completion = "jsval + 'a"

text \<open>
  Whatever can be passed as \<open>arg: any\<close>: a plain value, or a function. A function takes
  its argument list and the application's state \<open>'s\<close>, and throws or returns.
\<close>

datatype 's jsany =
    Data jsval
  | Fun "jsval list \<Rightarrow> 's \<Rightarrow> jsval completion \<times> 's"

fun call_function :: "'s jsany \<Rightarrow> jsval list \<Rightarrow> 's \<Rightarrow> jsval completion \<times> 's" where
  "call_function (Fun f) args s = f args s"
| "call_function (Data v) args s = (Inl JTypeError, s)"

text \<open>
  An object of type \<open>Record<string, V>\<close>: its own keys in enumeration order, each with its
  value. \<open>obj[k] = v\<close> overwrites in place or appends; \<open>obj[k]\<close> on a missing key is
  \<open>None\<close> (JavaScript's \<open>undefined\<close>). This is the assignment for names that are not
  special to the engine; an object that is filled under the names of a table is modelled
  in the next subsection.
\<close>

type_synonym 'v js_object = "(string \<times> 'v) list"

definition object_keys :: "'v js_object \<Rightarrow> string list" where
  "object_keys obj = map fst obj"

definition object_get :: "'v js_object \<Rightarrow> string \<Rightarrow> 'v option" where
  "object_get obj k = map_of obj k"

definition object_set :: "'v js_object \<Rightarrow> string \<Rightarrow> 'v \<Rightarrow> 'v js_object" where
  "object_set obj k v = AList.update k v obj"

text \<open>\<open>handlers[key]\<close> as a value: \<open>undefined\<close> when the key is missing.\<close>

definition object_get_any :: "'s jsany js_object \<Rightarrow> string \<Rightarrow> 's jsany" where
  "object_get_any obj k = (case object_get obj k of None \<Rightarrow> Data JUndefined | Some f \<Rightarrow> f)"


subsection \<open>Assignment to an object made by the literal \<open>{}\<close>\<close>

text \<open>
  \<open>toRenderer\<close> and \<open>toMain\<close> fill a fresh \<open>{}\<close> by \<open>api[key] = f\<close>, where \<open>f\<close> is a
  function and \<open>key\<close> is any name of a table. Such an assignment does not always add an
  own property. The model keeps the object's own properties and its prototype: \<open>None\<close>
  for the initial \<open>Object.prototype\<close>, \<open>Some f\<close> once the function \<open>f\<close> has become the
  prototype.
  \<^item> An own property of that name is overwritten.
  \<^item> Otherwise the name \<open>__proto__\<close> reaches the setter inherited from
    \<open>Object.prototype\<close>: the function becomes the object's prototype and no own
    property is added.
  \<^item> Otherwise, when the prototype is a function, the names \<open>length\<close> and \<open>name\<close> are
    inherited from it as read-only properties, and \<open>caller\<close> and \<open>arguments\<close> are
    inherited from \<open>Function.prototype\<close> with a setter that throws: the source is a module,
    hence strict-mode code, and the assignment throws a \<open>TypeError\<close>.
  \<^item> In every other case the assignment adds an own property.
\<close>

record 'f plain_object =
  own :: "'f js_object"
  proto :: "'f option"

definition empty_object :: "'f plain_object" where
  "empty_object = \<lparr>own = [], proto = None\<rparr>"

definition readonly_names :: "string list" where
  "readonly_names = [''length'', ''name'', ''caller'', ''arguments'']"

definition assign :: "'f plain_object \<Rightarrow> string \<Rightarrow> 'f \<Rightarrow> 'f plain_object completion" where
  "assign obj key f =
     (if key \<in> set (object_keys (own obj)) then Inr (obj\<lparr>own := object_set (own obj) key f\<rparr>)
      else if key = ''__proto__'' then Inr (obj\<lparr>proto := Some f\<rparr>)
      else if proto obj \<noteq> None \<and> key \<in> set readonly_names then Inl JTypeError
      else Inr (obj\<lparr>own := object_set (own obj) key f\<rparr>))"





section \<open>Action descriptors (types.ts, actions.ts)\<close>

datatype ipc_action =
    IpcTwoWayAction (arg: jsval) (result: jsval)
  | IpcOneWayAction (arg: jsval)

text \<open>The \<open>type\<close> field of a descriptor.\<close>

fun action_type :: "ipc_action \<Rightarrow> string" where
  "action_type (IpcTwoWayAction a r) = ''twoWay''"
| "action_type (IpcOneWayAction a) = ''oneWay''"

definition twoWayAction :: ipc_action where
  "twoWayAction = IpcTwoWayAction JNull JNull"

definition oneWayAction :: ipc_action where
  "oneWayAction = IpcOneWayAction JNull"


section \<open>The contract (createIpcApi.ts)\<close>

text \<open>What the returned surfaces close over: the destructured \<open>props\<close>.\<close>

record contract =
  ipcKey :: string
  toMain :: "ipc_action js_object"
  toRender :: "ipc_action js_object"


subsection \<open>The closures the surfaces create\<close>

text \<open>
  Each arrow function of the source is a constructor holding what it captures:
  \<^item> \<open>InvokeClosure key\<close> is \<^verbatim>\<open>(arg) => { return ipcRenderer.invoke(key, arg); }\<close>
  \<^item> \<open>SendClosure key\<close> is \<^verbatim>\<open>(arg) => { return ipcRenderer.send(key, arg); }\<close>
  \<^item> \<open>OnClosure key\<close> is \<^verbatim>\<open>(cb) => { ipcRenderer.on(key, (_, arg) => cb(arg)); }\<close>
  \<^item> \<open>UnwrapListener cb\<close> is \<^verbatim>\<open>(_, arg) => cb(arg)\<close>
  \<^item> \<open>HandlerListener handlers key\<close> is \<^verbatim>\<open>(e, arg) => { handlers[key](arg, e); }\<close>
  \<^item> \<open>WindowSendClosure window key\<close> is \<^verbatim>\<open>(arg) => { return window.webContents.send(key, arg); }\<close>
  \<^item> \<open>BridgeCallClosure ipcKey key\<close> is \<^verbatim>\<open>(arg) => { return window[ipcKey][`m_${key}`](arg); }\<close>
\<close>

datatype bridge_callable = InvokeClosure string | SendClosure string | OnClosure string

datatype 's renderer_listener = UnwrapListener "'s jsany"

datatype 's main_listener = HandlerListener "'s jsany js_object" string

datatype sender_callable = WindowSendClosure nat string

datatype caller_callable = BridgeCallClosure string string


subsection \<open>The host runtime\<close>

text \<open>
  Messages handed to the transport: \<open>ipcRenderer.invoke\<close>, \<open>ipcRenderer.send\<close> and
  \<open>window.webContents.send\<close> (a window handle is a number).
\<close>

datatype 's transport_msg =
    Invoke string "'s jsany"
  | Send string "'s jsany"
  | WindowSend nat string "'s jsany"

text \<open>
  The state of the host that the library can touch: the objects exposed in the renderer's
  global scope, the listener registries of \<open>ipcRenderer.on\<close>, \<open>ipcMain.handle\<close> and
  \<open>ipcMain.on\<close> in registration order, the messages handed to the transport in order,
  and the windows that have been destroyed.
\<close>

record 's world =
  globals :: "bridge_callable js_object js_object"
  renderer_listeners :: "(string \<times> 's renderer_listener) list"
  handle_listeners :: "(string \<times> 's main_listener) list"
  on_listeners :: "(string \<times> 's main_listener) list"
  sent :: "'s transport_msg list"
  destroyed :: "nat list"

text \<open>
  Modelled from the spec: the host's boundary operations (Electron's \<open>ipcRenderer\<close>,
  \<open>ipcMain\<close>, \<open>webContents\<close> and \<open>contextBridge\<close>) are not part of the repository.
  Each records what it was called with: \<open>invoke(name, arg)\<close> returns a fresh pending
  result, \<open>send\<close> returns nothing, \<open>on\<close> and \<open>handle\<close> add a listener to the registry,
  \<open>exposeInMainWorld\<close> installs the object under the key, and a send to a destroyed
  window fails with whatever the host throws.
\<close>

definition ipcRenderer_invoke :: "string \<Rightarrow> 's jsany \<Rightarrow> 's world \<Rightarrow> jsval completion \<times> 's world" where
  "ipcRenderer_invoke channel a w =
     (Inr (JPending (length (sent w))), w\<lparr>sent := sent w @ [Invoke channel a]\<rparr>)"

definition ipcRenderer_send :: "string \<Rightarrow> 's jsany \<Rightarrow> 's world \<Rightarrow> jsval completion \<times> 's world" where
  "ipcRenderer_send channel a w = (Inr JUndefined, w\<lparr>sent := sent w @ [Send channel a]\<rparr>)"

definition ipcRenderer_on :: "string \<Rightarrow> 's renderer_listener \<Rightarrow> 's world \<Rightarrow> 's world" where
  "ipcRenderer_on channel l w = w\<lparr>renderer_listeners := renderer_listeners w @ [(channel, l)]\<rparr>"

definition ipcMain_handle :: "string \<Rightarrow> 's main_listener \<Rightarrow> 's world \<Rightarrow> 's world" where
  "ipcMain_handle channel l w = w\<lparr>handle_listeners := handle_listeners w @ [(channel, l)]\<rparr>"

definition ipcMain_on :: "string \<Rightarrow> 's main_listener \<Rightarrow> 's world \<Rightarrow> 's world" where
  "ipcMain_on channel l w = w\<lparr>on_listeners := on_listeners w @ [(channel, l)]\<rparr>"


definition exposeInMainWorld :: "string \<Rightarrow> bridge_callable js_object \<Rightarrow> 's world \<Rightarrow> 's world" where
  "exposeInMainWorld k obj w = w\<lparr>globals := object_set (globals w) k obj\<rparr>"


subsection \<open>Calling the closures\<close>

fun apply_bridge :: "bridge_callable \<Rightarrow> 's jsany \<Rightarrow> 's world \<Rightarrow> jsval completion \<times> 's world" where
  "apply_bridge (InvokeClosure key) a w = ipcRenderer_invoke key a w"
| "apply_bridge (SendClosure key) a w = ipcRenderer_send key a w"
| "apply_bridge (OnClosure key) cb w = (Inr JUndefined, ipcRenderer_on key (UnwrapListener cb) w)"


text \<open>
  The listener's body is a block with one expression statement and no \<open>return\<close>: it
  throws what the handler throws, and otherwise returns \<open>undefined\<close>.
\<close>

fun apply_main_listener ::
  "'s main_listener \<Rightarrow> jsval \<Rightarrow> jsval \<Rightarrow> 's \<Rightarrow> jsval completion \<times> 's" where
  "apply_main_listener (HandlerListener handlers key) e a s =
     (case call_function (object_get_any handlers key) [a, e] s of
        (Inl err, s') \<Rightarrow> (Inl err, s')
      | (Inr r, s') \<Rightarrow> (Inr JUndefined, s'))"




subsection \<open>The surfaces that createIpcApi returns\<close>

text \<open>
  \<open>preload\<close>: the two loops that fill \<open>expose\<close>, then the exposure. Every name written
  to \<open>expose\<close> starts with \<open>m_\<close> or \<open>r_\<close>, so each assignment overwrites or adds an own
  property.
\<close>

fun preload_toMain ::
  "string list \<Rightarrow> ipc_action js_object \<Rightarrow> bridge_callable js_object
     \<Rightarrow> bridge_callable js_object completion" where
  "preload_toMain [] tm expose = Inr expose"
| "preload_toMain (key # keys) tm expose =
     (case object_get tm key of
        None \<Rightarrow> Inl JTypeError
      | Some d \<Rightarrow>
          if action_type d = ''twoWay''
          then preload_toMain keys tm (object_set expose (''m_'' @ key) (InvokeClosure key))
          else preload_toMain keys tm (object_set expose (''m_'' @ key) (SendClosure key)))"

fun preload_toRender ::
  "string list \<Rightarrow> bridge_callable js_object \<Rightarrow> bridge_callable js_object" where
  "preload_toRender [] expose = expose"
| "preload_toRender (key # keys) expose =
     preload_toRender keys (object_set expose (''r_'' @ key) (OnClosure key))"

definition preload_expose :: "contract \<Rightarrow> bridge_callable js_object completion" where
  "preload_expose c =
     (case preload_toMain (object_keys (toMain c)) (toMain c) [] of
        Inl err \<Rightarrow> Inl err
      | Inr expose \<Rightarrow> Inr (preload_toRender (object_keys (toRender c)) expose))"

definition preload :: "contract \<Rightarrow> 's world \<Rightarrow> jsval completion \<times> 's world" where
  "preload c w =
     (case preload_expose c of
        Inl err \<Rightarrow> (Inl err, w)
      | Inr expose \<Rightarrow> (Inr JUndefined, exposeInMainWorld (ipcKey c) expose w))"

text \<open>\<open>main.toRenderer({ window })\<close>\<close>

fun toRenderer_loop ::
  "string list \<Rightarrow> nat \<Rightarrow> sender_callable plain_object
     \<Rightarrow> sender_callable plain_object completion" where
  "toRenderer_loop [] window api = Inr api"
| "toRenderer_loop (key # keys) window api =
     (case assign api key (WindowSendClosure window key) of
        Inl err \<Rightarrow> Inl err
      | Inr api' \<Rightarrow> toRenderer_loop keys window api')"

definition main_toRenderer ::
  "contract \<Rightarrow> nat \<Rightarrow> 's world \<Rightarrow> sender_callable plain_object completion \<times> 's world" where
  "main_toRenderer c window w =
     (toRenderer_loop (object_keys (toRender c)) window empty_object, w)"

text \<open>\<open>main.fromRenderer({ handlers, ipcMain })\<close>\<close>

fun fromRenderer_loop ::
  "string list \<Rightarrow> ipc_action js_object \<Rightarrow> 's jsany js_object \<Rightarrow> 's world
     \<Rightarrow> jsval completion \<times> 's world" where
  "fromRenderer_loop [] tm handlers w = (Inr JUndefined, w)"
| "fromRenderer_loop (key # keys) tm handlers w =
     (case object_get tm key of
        None \<Rightarrow> (Inl JTypeError, w)
      | Some d \<Rightarrow>
          if action_type d = ''twoWay''
          then fromRenderer_loop keys tm handlers
                 (ipcMain_handle key (HandlerListener handlers key) w)
          else fromRenderer_loop keys tm handlers
                 (ipcMain_on key (HandlerListener handlers key) w))"

definition main_fromRenderer ::
  "contract \<Rightarrow> 's jsany js_object \<Rightarrow> 's world \<Rightarrow> jsval completion \<times> 's world" where
  "main_fromRenderer c handlers w =
     fromRenderer_loop (object_keys (toMain c)) (toMain c) handlers w"

text \<open>\<open>renderer.toMain()\<close>\<close>

fun toMain_loop ::
  "string list \<Rightarrow> string \<Rightarrow> caller_callable plain_object
     \<Rightarrow> caller_callable plain_object completion" where
  "toMain_loop [] k api = Inr api"
| "toMain_loop (key # keys) k api =
     (case assign api key (BridgeCallClosure k key) of
        Inl err \<Rightarrow> Inl err
      | Inr api' \<Rightarrow> toMain_loop keys k api')"

definition renderer_toMain ::
  "contract \<Rightarrow> 's world \<Rightarrow> caller_callable plain_object completion \<times> 's world" where
  "renderer_toMain c w = (toMain_loop (object_keys (toMain c)) (ipcKey c) empty_object, w)"

text \<open>\<open>renderer.fromMain({ handlers })\<close>: a failed lookup or call ends the loop.\<close>

fun fromMain_loop ::
  "string list \<Rightarrow> string \<Rightarrow> 's jsany js_object \<Rightarrow> 's world \<Rightarrow> jsval completion \<times> 's world" where
  "fromMain_loop [] k handlers w = (Inr JUndefined, w)"
| "fromMain_loop (key # keys) k handlers w =
     (case object_get (globals w) k of
        None \<Rightarrow> (Inl JTypeError, w)
      | Some bridge \<Rightarrow>
          (case object_get bridge (''r_'' @ key) of
             None \<Rightarrow> (Inl JTypeError, w)
           | Some f \<Rightarrow>
               (case apply_bridge f (object_get_any handlers key) w of
                  (Inl err, w') \<Rightarrow> (Inl err, w')
                | (Inr r, w') \<Rightarrow> fromMain_loop keys k handlers w')))"

definition renderer_fromMain ::
  "contract \<Rightarrow> 's jsany js_object \<Rightarrow> 's world \<Rightarrow> jsval completion \<times> 's world" where
  "renderer_fromMain c handlers w = fromMain_loop (object_keys (toRender c)) (ipcKey c) handlers w"

subsection \<open>Sequences of surface calls\<close>

text \<open>
  A program uses the contract through its five surfaces. The state is the contract the
  surfaces close over together with the host; a step runs one surface and keeps what it
  left behind, whether it returned or threw.
\<close>

datatype 's surface_call =
    CallPreload
  | CallToRenderer nat
  | CallFromRenderer "'s jsany js_object"
  | CallToMain
  | CallFromMain "'s jsany js_object"

fun surface_step :: "'s surface_call \<Rightarrow> contract \<times> 's world \<Rightarrow> contract \<times> 's world" where
  "surface_step CallPreload (c, w) = (c, snd (preload c w))"
| "surface_step (CallToRenderer window) (c, w) = (c, snd (main_toRenderer c window w))"
| "surface_step (CallFromRenderer handlers) (c, w) = (c, snd (main_fromRenderer c handlers w))"
| "surface_step CallToMain (c, w) = (c, snd (renderer_toMain c w))"
| "surface_step (CallFromMain handlers) (c, w) = (c, snd (renderer_fromMain c handlers w))"

definition run_calls :: "'s surface_call list \<Rightarrow> contract \<times> 's world \<Rightarrow> contract \<times> 's world" where
  "run_calls calls st = fold surface_step calls st"


subsection \<open>The surfaces over a store\<close>

text \<open>
  The two tables are objects that the application creates and hands to \<open>createIpcApi\<close>
  by reference, and the surfaces close over these references. To say what the surfaces do
  to the tables, the same code is run here over a store: every object the code reaches by
  reference lives at an address, an object literal \<open>{}\<close> takes the next unused address,
  and every property read and write names the address it goes to. A table holds its
  descriptors; the objects the surfaces build are the exposed object of \<open>preload\<close> and
  the objects returned by \<open>toRenderer\<close> and \<open>toMain\<close>.
\<close>

type_synonym ref = nat

datatype stored =
    TableObject "ipc_action js_object"
  | ExposeObject "bridge_callable js_object"
  | SenderObject "sender_callable plain_object"
  | CallerObject "caller_callable plain_object"

record 's store =
  heap :: "ref \<Rightarrow> stored option"
  fresh :: ref
  host :: "'s world"

























subsection \<open>The host's answer to a request\<close>

text \<open>
  Modelled from the spec: the host's request/response primitive is not part of the
  repository. The response to \<open>invoke(name, arg)\<close> is what the callback registered by
  \<open>handle(name, callback)\<close> returns or throws, called with (event metadata, arg); the
  renderer's pending result settles with it. A request on a channel without a handler is
  rejected.
\<close>

definition invoke_response ::
  "'s world \<Rightarrow> string \<Rightarrow> jsval \<Rightarrow> jsval \<Rightarrow> 's \<Rightarrow> jsval completion \<times> 's" where
  "invoke_response w channel e a s =
     (case map_of (handle_listeners w) channel of
        None \<Rightarrow> (Inl JTypeError, s)
      | Some l \<Rightarrow> apply_main_listener l e a s)"


subsection \<open>The contract of the README\<close>

text \<open>
  The tables, handlers and calls of the README's usage example. The application's state
  is the list of argument lists its handlers were called with.
\<close>

definition readme_contract :: contract where
  "readme_contract =
     \<lparr>ipcKey = ''myIpc'',
      toMain = [(''logMessage'', oneWayAction), (''fetchData'', twoWayAction)],
      toRender = [(''notify'', oneWayAction)]\<rparr>"

definition empty_world :: "'s world" where
  "empty_world =
     \<lparr>globals = [], renderer_listeners = [], handle_listeners = [], on_listeners = [],
      sent = [], destroyed = []\<rparr>"

definition logMessage_handler :: "jsval list \<Rightarrow> jsval list list \<Rightarrow> jsval completion \<times> jsval list list" where
  "logMessage_handler args s = (Inr JUndefined, s @ [args])"

definition fetchData_handler :: "jsval list \<Rightarrow> jsval list list \<Rightarrow> jsval completion \<times> jsval list list" where
  "fetchData_handler args s = (Inr (JObj [(''name'', JStr ''Item 42'')]), s @ [args])"

definition notify_handler :: "jsval list \<Rightarrow> jsval list list \<Rightarrow> jsval completion \<times> jsval list list" where
  "notify_handler args s = (Inr JUndefined, s @ [args])"

definition readme_main_handlers :: "jsval list list jsany js_object" where
  "readme_main_handlers =
     [(''logMessage'', Fun logMessage_handler), (''fetchData'', Fun fetchData_handler)]"

definition readme_renderer_handlers :: "jsval list list jsany js_object" where
  "readme_renderer_handlers = [(''notify'', Fun notify_handler)]"





definition readme_bridge :: "bridge_callable js_object" where
  "readme_bridge =
     [(''m_logMessage'', SendClosure ''logMessage''),
      (''m_fetchData'', InvokeClosure ''fetchData''),
      (''r_notify'', OnClosure ''notify'')]"


section \<open>Lemmas on objects\<close>

lemma object_get_set:
  "object_get (object_set obj k v) k' = (if k' = k then Some v else object_get obj k')"
  by (simp add: object_get_def object_set_def update_conv')

lemma object_keys_set_distinct:
  "distinct (object_keys obj) \<Longrightarrow> distinct (object_keys (object_set obj k v))"
  by (simp add: object_keys_def object_set_def distinct_update)

lemma object_keys_set_set:
  "set (object_keys (object_set obj k v)) = insert k (set (object_keys obj))"
  using dom_update [of k v obj] by (simp add: object_keys_def object_set_def)

lemma object_set_fresh:
  "k \<notin> set (object_keys obj) \<Longrightarrow> object_set obj k v = obj @ [(k, v)]"
  by (induction obj) (auto simp: object_keys_def object_set_def)

lemma object_get_keys:
  "k \<in> set (object_keys obj) \<Longrightarrow> \<exists>v. object_get obj k = Some v"
  by (induction obj) (auto simp: object_keys_def object_get_def)

lemma object_get_in_keys:
  "object_get obj k = Some v \<Longrightarrow> k \<in> set (object_keys obj)"
  by (auto simp: object_keys_def object_get_def dest: map_of_SomeD intro: rev_image_eqI)

section \<open>The loops of preload\<close>

lemma preload_toMain_total:
  "set keys \<subseteq> set (object_keys tm) \<Longrightarrow> \<exists>ex. preload_toMain keys tm expose = Inr ex"
proof (induction keys arbitrary: expose)
  case Nil
  then show ?case by simp
next
  case (Cons key keys)
  then obtain d where "object_get tm key = Some d"
    using object_get_keys [of key tm] by auto
  with Cons show ?case by simp
qed

lemma preload_toMain_keys:
  "preload_toMain keys tm expose = Inr ex \<Longrightarrow>
   set (object_keys ex) = set (object_keys expose) \<union> (\<lambda>k. ''m_'' @ k) ` set keys"
proof (induction keys arbitrary: expose)
  case Nil
  then show ?case by simp
next
  case (Cons key keys)
  then show ?case
    by (auto simp: object_keys_set_set split: option.splits if_splits)
qed

lemma preload_toMain_distinct:
  "preload_toMain keys tm expose = Inr ex \<Longrightarrow> distinct (object_keys expose) \<Longrightarrow>
   distinct (object_keys ex)"
proof (induction keys arbitrary: expose)
  case Nil
  then show ?case by simp
next
  case (Cons key keys)
  then show ?case
    by (auto simp: object_keys_set_distinct split: option.splits if_splits)
qed

lemma preload_toMain_other:
  "preload_toMain keys tm expose = Inr ex \<Longrightarrow> q \<notin> (\<lambda>k. ''m_'' @ k) ` set keys \<Longrightarrow>
   object_get ex q = object_get expose q"
proof (induction keys arbitrary: expose)
  case Nil
  then show ?case by simp
next
  case (Cons key keys)
  then show ?case
    by (auto simp: object_get_set split: option.splits if_splits)
qed

lemma preload_toMain_get:
  "preload_toMain keys tm expose = Inr ex \<Longrightarrow> key \<in> set keys \<Longrightarrow>
   object_get tm key = Some d \<Longrightarrow>
   object_get ex (''m_'' @ key) =
     Some (if action_type d = ''twoWay'' then InvokeClosure key else SendClosure key)"
proof (induction keys arbitrary: expose)
  case Nil
  then show ?case by simp
next
  case (Cons k keys)
  show ?case
  proof (cases "key \<in> set keys")
    case True
    with Cons show ?thesis
      by (auto split: option.splits if_splits)
  next
    case False
    with Cons.prems have k: "k = key" by simp
    have notin: "''m_'' @ key \<notin> (\<lambda>k. ''m_'' @ k) ` set keys"
      using False by auto
    from Cons.prems(1,3) k obtain v where
      rest: "preload_toMain keys tm (object_set expose (''m_'' @ key) v) = Inr ex" and
      v: "v = (if action_type d = ''twoWay'' then InvokeClosure key else SendClosure key)"
      by (auto split: if_splits)
    have "object_get ex (''m_'' @ key) = object_get (object_set expose (''m_'' @ key) v) (''m_'' @ key)"
      using rest notin by (rule preload_toMain_other)
    then show ?thesis
      unfolding v by (simp add: object_get_set)
  qed
qed

lemma preload_toRender_keys:
  "set (object_keys (preload_toRender keys expose)) =
     set (object_keys expose) \<union> (\<lambda>k. ''r_'' @ k) ` set keys"
  by (induction keys arbitrary: expose) (auto simp: object_keys_set_set)

lemma preload_toRender_distinct:
  "distinct (object_keys expose) \<Longrightarrow> distinct (object_keys (preload_toRender keys expose))"
  by (induction keys arbitrary: expose) (auto simp: object_keys_set_distinct)

lemma preload_toRender_other:
  "q \<notin> (\<lambda>k. ''r_'' @ k) ` set keys \<Longrightarrow>
   object_get (preload_toRender keys expose) q = object_get expose q"
  by (induction keys arbitrary: expose) (auto simp: object_get_set)

lemma preload_toRender_get:
  "key \<in> set keys \<Longrightarrow>
   object_get (preload_toRender keys expose) (''r_'' @ key) = Some (OnClosure key)"
proof (induction keys arbitrary: expose)
  case Nil
  then show ?case by simp
next
  case (Cons k keys)
  show ?case
  proof (cases "key \<in> set keys")
    case True
    with Cons show ?thesis by simp
  next
    case False
    then have notin: "''r_'' @ key \<notin> (\<lambda>k. ''r_'' @ k) ` set keys" by auto
    from Cons.prems False have k: "k = key" by simp
    have "object_get (preload_toRender keys (object_set expose (''r_'' @ key) (OnClosure key)))
            (''r_'' @ key) =
          object_get (object_set expose (''r_'' @ key) (OnClosure key)) (''r_'' @ key)"
      using notin by (rule preload_toRender_other)
    then show ?thesis
      unfolding k by (simp add: object_get_set)
  qed
qed

lemma m_not_r: "''m_'' @ key \<notin> (\<lambda>k. ''r_'' @ k) ` A"
  by auto

lemma r_not_m: "''r_'' @ key \<notin> (\<lambda>k. ''m_'' @ k) ` A"
  by auto

lemma preload_expose_total: "\<exists>bridge. preload_expose c = Inr bridge"
proof -
  obtain ex where "preload_toMain (object_keys (toMain c)) (toMain c) [] = Inr ex"
    using preload_toMain_total [of "object_keys (toMain c)" "toMain c" "[]"] by auto
  then show ?thesis by (simp add: preload_expose_def)
qed

lemma preload_expose_keys:
  assumes "preload_expose c = Inr bridge"
  shows "set (object_keys bridge) =
           (\<lambda>k. ''m_'' @ k) ` set (object_keys (toMain c)) \<union>
           (\<lambda>k. ''r_'' @ k) ` set (object_keys (toRender c))"
    and "distinct (object_keys bridge)"
proof -
  from assms obtain ex where
    ex: "preload_toMain (object_keys (toMain c)) (toMain c) [] = Inr ex" and
    br: "bridge = preload_toRender (object_keys (toRender c)) ex"
    by (auto simp: preload_expose_def split: sum.splits)
  have "set (object_keys ex) = (\<lambda>k. ''m_'' @ k) ` set (object_keys (toMain c))"
    using preload_toMain_keys [OF ex] by (simp add: object_keys_def)
  then show "set (object_keys bridge) =
           (\<lambda>k. ''m_'' @ k) ` set (object_keys (toMain c)) \<union>
           (\<lambda>k. ''r_'' @ k) ` set (object_keys (toRender c))"
    by (simp add: br preload_toRender_keys)
  have "distinct (object_keys ex)"
    using preload_toMain_distinct [OF ex] by (simp add: object_keys_def)
  then show "distinct (object_keys bridge)"
    by (simp add: br preload_toRender_distinct)
qed

lemma preload_expose_m:
  assumes "preload_expose c = Inr bridge" and "object_get (toMain c) key = Some d"
  shows "object_get bridge (''m_'' @ key) =
           Some (if action_type d = ''twoWay'' then InvokeClosure key else SendClosure key)"
proof -
  from assms(1) obtain ex where
    ex: "preload_toMain (object_keys (toMain c)) (toMain c) [] = Inr ex" and
    br: "bridge = preload_toRender (object_keys (toRender c)) ex"
    by (auto simp: preload_expose_def split: sum.splits)
  have "key \<in> set (object_keys (toMain c))"
    using assms(2) by (rule object_get_in_keys)
  then have "object_get ex (''m_'' @ key) =
           Some (if action_type d = ''twoWay'' then InvokeClosure key else SendClosure key)"
    using preload_toMain_get [OF ex _ assms(2)] by blast
  moreover have "object_get bridge (''m_'' @ key) = object_get ex (''m_'' @ key)"
    unfolding br using m_not_r by (rule preload_toRender_other)
  ultimately show ?thesis by simp
qed

lemma preload_expose_r:
  assumes "preload_expose c = Inr bridge" and "key \<in> set (object_keys (toRender c))"
  shows "object_get bridge (''r_'' @ key) = Some (OnClosure key)"
proof -
  from assms(1) obtain ex where
    br: "bridge = preload_toRender (object_keys (toRender c)) ex"
    by (auto simp: preload_expose_def split: sum.splits)
  show ?thesis
    unfolding br using assms(2) by (rule preload_toRender_get)
qed


section \<open>Descriptors are read for their tag alone\<close>

lemma tags_keys:
  "map (\<lambda>(k, d). (k, action_type d)) t' = map (\<lambda>(k, d). (k, action_type d)) t \<Longrightarrow>
   object_keys t' = object_keys t"
proof -
  assume eq: "map (\<lambda>(k, d). (k, action_type d)) t' = map (\<lambda>(k, d). (k, action_type d)) t"
  have "map fst (map (\<lambda>(k, d). (k, action_type d)) u) = map fst u" for u :: "ipc_action js_object"
    by (induction u) auto
  with eq show ?thesis
    by (metis object_keys_def)
qed

lemma tags_get:
  "map (\<lambda>(k, d). (k, action_type d)) t' = map (\<lambda>(k, d). (k, action_type d)) t \<Longrightarrow>
   map_option action_type (object_get t' key) = map_option action_type (object_get t key)"
proof -
  assume eq: "map (\<lambda>(k, d). (k, action_type d)) t' = map (\<lambda>(k, d). (k, action_type d)) t"
  have "map_of (map (\<lambda>(k, d). (k, action_type d)) u) key = map_option action_type (map_of u key)"
    for u :: "ipc_action js_object"
    by (induction u) auto
  with eq show ?thesis
    by (metis object_get_def)
qed

lemma preload_toMain_tags:
  assumes "\<And>key. map_option action_type (object_get t' key) = map_option action_type (object_get t key)"
  shows "preload_toMain keys t' expose = preload_toMain keys t expose"
proof (induction keys arbitrary: expose)
  case Nil
  show ?case by simp
next
  case (Cons key keys)
  show ?case
    using assms [of key] Cons.IH
    by (cases "object_get t' key"; cases "object_get t key") auto
qed

lemma fromRenderer_loop_tags:
  assumes "\<And>key. map_option action_type (object_get t' key) = map_option action_type (object_get t key)"
  shows "fromRenderer_loop keys t' handlers w = fromRenderer_loop keys t handlers w"
proof (induction keys arbitrary: w)
  case Nil
  show ?case by simp
next
  case (Cons key keys)
  show ?case
    using assms [of key] Cons.IH
    by (cases "object_get t' key"; cases "object_get t key") auto
qed

text \<open>
  C9. The two factories take no argument and always return the same descriptor: tagged
  \<open>oneWay\<close> (respectively \<open>twoWay\<close>), with \<open>null\<close> in the argument and result fields. No
  surface reads those fields: two contracts with the same namespace key, the same
  renderer-to-main names and tags and the same main-to-renderer names have the same
  five surfaces.
\<close>

theorem descriptor_factories:
  "action_type twoWayAction = ''twoWay'' \<and> arg twoWayAction = JNull \<and> result twoWayAction = JNull \<and>
   action_type oneWayAction = ''oneWay'' \<and> arg oneWayAction = JNull \<and>
   (ipcKey c' = ipcKey c \<and>
    map (\<lambda>(k, d). (k, action_type d)) (toMain c') = map (\<lambda>(k, d). (k, action_type d)) (toMain c) \<and>
    object_keys (toRender c') = object_keys (toRender c) \<longrightarrow>
      (preload c' :: 's world \<Rightarrow> _) = preload c \<and>
      (main_toRenderer c' :: _ \<Rightarrow> 's world \<Rightarrow> _) = main_toRenderer c \<and>
      (main_fromRenderer c' :: _ \<Rightarrow> 's world \<Rightarrow> _) = main_fromRenderer c \<and>
      (renderer_toMain c' :: 's world \<Rightarrow> _) = renderer_toMain c \<and>
      (renderer_fromMain c' :: _ \<Rightarrow> 's world \<Rightarrow> _) = renderer_fromMain c)"
proof -
  have factories:
    "action_type twoWayAction = ''twoWay'' \<and> arg twoWayAction = JNull \<and> result twoWayAction = JNull \<and>
     action_type oneWayAction = ''oneWay'' \<and> arg oneWayAction = JNull"
    by (simp add: twoWayAction_def oneWayAction_def)
  have surfaces:
    "(preload c' :: 's world \<Rightarrow> _) = preload c \<and>
      (main_toRenderer c' :: _ \<Rightarrow> 's world \<Rightarrow> _) = main_toRenderer c \<and>
      (main_fromRenderer c' :: _ \<Rightarrow> 's world \<Rightarrow> _) = main_fromRenderer c \<and>
      (renderer_toMain c' :: 's world \<Rightarrow> _) = renderer_toMain c \<and>
      (renderer_fromMain c' :: _ \<Rightarrow> 's world \<Rightarrow> _) = renderer_fromMain c"
    if k: "ipcKey c' = ipcKey c"
      and tm: "map (\<lambda>(k, d). (k, action_type d)) (toMain c') = map (\<lambda>(k, d). (k, action_type d)) (toMain c)"
      and tr: "object_keys (toRender c') = object_keys (toRender c)"
  proof -
    have keys: "object_keys (toMain c') = object_keys (toMain c)"
      using tm by (rule tags_keys)
    have get: "map_option action_type (object_get (toMain c') key) =
               map_option action_type (object_get (toMain c) key)" for key
      using tm by (rule tags_get)
    have ex: "preload_expose c' = preload_expose c"
      by (simp add: preload_expose_def keys tr preload_toMain_tags [OF get] split: sum.splits)
    have 1: "(preload c' :: 's world \<Rightarrow> _) = preload c"
      by (rule ext) (simp add: preload_def ex k split: sum.splits)
    have 2: "(main_toRenderer c' :: _ \<Rightarrow> 's world \<Rightarrow> _) = main_toRenderer c"
      by (intro ext) (simp add: main_toRenderer_def tr)
    have 3: "(main_fromRenderer c' :: _ \<Rightarrow> 's world \<Rightarrow> _) = main_fromRenderer c"
      by (intro ext) (simp add: main_fromRenderer_def keys fromRenderer_loop_tags [OF get])
    have 4: "(renderer_toMain c' :: 's world \<Rightarrow> _) = renderer_toMain c"
      by (rule ext) (simp add: renderer_toMain_def keys k)
    have 5: "(renderer_fromMain c' :: _ \<Rightarrow> 's world \<Rightarrow> _) = renderer_fromMain c"
      by (intro ext) (simp add: renderer_fromMain_def tr k)
    from 1 2 3 4 5 show ?thesis by blast
  qed
  from factories surfaces show ?thesis by blast
qed

theorem descriptor_factories_witness:
  "ipcKey (readme_contract\<lparr>toMain := [(''logMessage'', IpcOneWayAction (JStr ''hello'')),
                                         (''fetchData'', IpcTwoWayAction (JNum 1) (JNum 2))]\<rparr>)
     = ipcKey readme_contract \<and>
   map (\<lambda>(k, d). (k, action_type d))
     (toMain (readme_contract\<lparr>toMain := [(''logMessage'', IpcOneWayAction (JStr ''hello'')),
                                         (''fetchData'', IpcTwoWayAction (JNum 1) (JNum 2))]\<rparr>))
     = map (\<lambda>(k, d). (k, action_type d)) (toMain readme_contract) \<and>
   (preload (readme_contract\<lparr>toMain := [(''logMessage'', IpcOneWayAction (JStr ''hello'')),
                                         (''fetchData'', IpcTwoWayAction (JNum 1) (JNum 2))]\<rparr>)
      :: unit world \<Rightarrow> _) = preload readme_contract \<and>
   (main_fromRenderer (readme_contract\<lparr>toMain := [(''logMessage'', IpcOneWayAction (JStr ''hello'')),
                                         (''fetchData'', IpcTwoWayAction (JNum 1) (JNum 2))]\<rparr>)
      :: _ \<Rightarrow> unit world \<Rightarrow> _) = main_fromRenderer readme_contract"
  using descriptor_factories
    [of "readme_contract\<lparr>toMain := [(''logMessage'', IpcOneWayAction (JStr ''hello'')),
                                         (''fetchData'', IpcTwoWayAction (JNum 1) (JNum 2))]\<rparr>"
        readme_contract, where ?'s = unit]
  by (simp add: readme_contract_def oneWayAction_def twoWayAction_def)

section \<open>The bridge object\<close>

lemma preload_toMain_keys_list:
  "preload_toMain keys tm expose = Inr ex \<Longrightarrow> distinct keys \<Longrightarrow>
   (\<lambda>k. ''m_'' @ k) ` set keys \<inter> set (object_keys expose) = {} \<Longrightarrow>
   object_keys ex = object_keys expose @ map (\<lambda>k. ''m_'' @ k) keys"
proof (induction keys arbitrary: expose)
  case Nil
  then show ?case by simp
next
  case (Cons key keys)
  from Cons.prems(3) have fresh: "''m_'' @ key \<notin> set (object_keys expose)" by auto
  from Cons.prems(1) obtain v where
    rest: "preload_toMain keys tm (object_set expose (''m_'' @ key) v) = Inr ex"
    by (auto split: option.splits if_splits)
  have keys': "object_keys (object_set expose (''m_'' @ key) v) = object_keys expose @ [''m_'' @ key]"
    using fresh by (simp add: object_set_fresh object_keys_def)
  have d: "distinct keys" and notin: "key \<notin> set keys"
    using Cons.prems(2) by simp_all
  have old: "(\<lambda>k. ''m_'' @ k) ` set keys \<inter> set (object_keys expose) = {}"
    using Cons.prems(3) by auto
  have new: "''m_'' @ key \<notin> (\<lambda>k. ''m_'' @ k) ` set keys"
    using notin by auto
  have disj: "(\<lambda>k. ''m_'' @ k) ` set keys \<inter>
              set (object_keys (object_set expose (''m_'' @ key) v)) = {}"
    unfolding keys' using old new by auto
  have "object_keys ex =
        object_keys (object_set expose (''m_'' @ key) v) @ map (\<lambda>k. ''m_'' @ k) keys"
    using rest d disj by (rule Cons.IH)
  then show ?case unfolding keys' by simp
qed

lemma preload_toRender_keys_list:
  "distinct keys \<Longrightarrow> (\<lambda>k. ''r_'' @ k) ` set keys \<inter> set (object_keys expose) = {} \<Longrightarrow>
   object_keys (preload_toRender keys expose) = object_keys expose @ map (\<lambda>k. ''r_'' @ k) keys"
proof (induction keys arbitrary: expose)
  case Nil
  then show ?case by simp
next
  case (Cons key keys)
  from Cons.prems(2) have fresh: "''r_'' @ key \<notin> set (object_keys expose)" by auto
  have keys': "object_keys (object_set expose (''r_'' @ key) (OnClosure key)) =
               object_keys expose @ [''r_'' @ key]"
    using fresh by (simp add: object_set_fresh object_keys_def)
  have d: "distinct keys" and notin: "key \<notin> set keys"
    using Cons.prems(1) by simp_all
  have old: "(\<lambda>k. ''r_'' @ k) ` set keys \<inter> set (object_keys expose) = {}"
    using Cons.prems(2) by auto
  have new: "''r_'' @ key \<notin> (\<lambda>k. ''r_'' @ k) ` set keys"
    using notin by auto
  have disj: "(\<lambda>k. ''r_'' @ k) ` set keys \<inter>
        set (object_keys (object_set expose (''r_'' @ key) (OnClosure key))) = {}"
    unfolding keys' using old new by auto
  have "object_keys (preload_toRender keys (object_set expose (''r_'' @ key) (OnClosure key))) =
        object_keys (object_set expose (''r_'' @ key) (OnClosure key)) @ map (\<lambda>k. ''r_'' @ k) keys"
    using d disj by (rule Cons.IH)
  then show ?case unfolding keys' by simp
qed

lemma preload_expose_keys_list:
  assumes "preload_expose c = Inr bridge"
    and "distinct (object_keys (toMain c))" and "distinct (object_keys (toRender c))"
  shows "object_keys bridge =
           map (\<lambda>k. ''m_'' @ k) (object_keys (toMain c)) @
           map (\<lambda>k. ''r_'' @ k) (object_keys (toRender c))"
proof -
  from assms(1) obtain ex where
    ex: "preload_toMain (object_keys (toMain c)) (toMain c) [] = Inr ex" and
    br: "bridge = preload_toRender (object_keys (toRender c)) ex"
    by (auto simp: preload_expose_def split: sum.splits)
  have "(\<lambda>k. ''m_'' @ k) ` set (object_keys (toMain c)) \<inter> set (object_keys ([] :: bridge_callable js_object)) = {}"
    by (simp add: object_keys_def)
  with ex assms(2)
  have "object_keys ex = object_keys ([] :: bridge_callable js_object) @ map (\<lambda>k. ''m_'' @ k) (object_keys (toMain c))"
    by (rule preload_toMain_keys_list)
  then have kex: "object_keys ex = map (\<lambda>k. ''m_'' @ k) (object_keys (toMain c))"
    by (simp add: object_keys_def)
  have "(\<lambda>k. ''r_'' @ k) ` set (object_keys (toRender c)) \<inter> set (object_keys ex) = {}"
    unfolding kex by auto
  with assms(3)
  have "object_keys (preload_toRender (object_keys (toRender c)) ex) =
        object_keys ex @ map (\<lambda>k. ''r_'' @ k) (object_keys (toRender c))"
    by (rule preload_toRender_keys_list)
  then show ?thesis
    unfolding br kex .
qed


text \<open>
  C1, evaluated on the README's contract. After \<open>fromRenderer\<close> has registered the
  README's handlers, a request on \<open>fetchData\<close> makes the handler run and return
  \<open>{name: "Item 42"}\<close>, yet the listener registered with \<open>ipcMain.handle\<close> returns
  \<open>undefined\<close>: the response, and so the value the renderer's pending result resolves
  to, is \<open>undefined\<close> and not the handler's result. This is so for every handler map:
  the listener that \<open>fromRenderer\<close> registers never returns anything but \<open>undefined\<close>.
\<close>

theorem fromRenderer_twoWay_response_undefined:
  "fst (fetchData_handler [JObj [(''id'', JNum 42)], JNull] []) = Inr (JObj [(''name'', JStr ''Item 42'')]) \<and>
   invoke_response (snd (main_fromRenderer readme_contract readme_main_handlers empty_world))
      ''fetchData'' JNull (JObj [(''id'', JNum 42)]) []
     = (Inr JUndefined, [[JObj [(''id'', JNum 42)], JNull]]) \<and>
   (case fst (apply_main_listener (HandlerListener handlers key) e a (s :: 's)) of
      Inl err \<Rightarrow> True
    | Inr r \<Rightarrow> r = JUndefined)"
proof -
  have readme:
    "fst (fetchData_handler [JObj [(''id'', JNum 42)], JNull] []) = Inr (JObj [(''name'', JStr ''Item 42'')]) \<and>
     invoke_response (snd (main_fromRenderer readme_contract readme_main_handlers empty_world))
        ''fetchData'' JNull (JObj [(''id'', JNum 42)]) []
       = (Inr JUndefined, [[JObj [(''id'', JNum 42)], JNull]])"
    by (simp add: invoke_response_def main_fromRenderer_def readme_contract_def
        readme_main_handlers_def empty_world_def object_keys_def object_get_def object_get_any_def
        ipcMain_handle_def ipcMain_on_def fetchData_handler_def oneWayAction_def twoWayAction_def)
  have always:
    "(case fst (apply_main_listener (HandlerListener handlers key) e a s) of
        Inl err \<Rightarrow> True
      | Inr r \<Rightarrow> r = JUndefined)"
    by (cases "call_function (object_get_any handlers key) [a, e] s")
      (auto split: sum.splits)
  from readme always show ?thesis by blast
qed


text \<open>
  C2. \<open>preload\<close> never fails and exposes one object under the namespace key. The keys of
  that object are pairwise different and are exactly \<open>m_\<close> + name for the
  renderer-to-main names and \<open>r_\<close> + name for the main-to-renderer names (in table
  order when the tables' names are pairwise different). The callable under \<open>m_\<close> + name
  hands one message to \<open>invoke\<close> or \<open>send\<close> on the channel name, and the callable under
  \<open>r_\<close> + name registers one listener with \<open>on\<close> on the channel name: the unprefixed
  name in both cases.
\<close>

theorem preload_bridge_keys_and_channels:
  "\<exists>bridge.
     preload_expose c = Inr bridge \<and>
     preload c w = (Inr JUndefined, w\<lparr>globals := object_set (globals w) (ipcKey c) bridge\<rparr>) \<and>
     distinct (object_keys bridge) \<and>
     set (object_keys bridge) =
       (\<lambda>name. ''m_'' @ name) ` set (object_keys (toMain c)) \<union>
       (\<lambda>name. ''r_'' @ name) ` set (object_keys (toRender c)) \<and>
     (distinct (object_keys (toMain c)) \<and> distinct (object_keys (toRender c)) \<longrightarrow>
        object_keys bridge =
          map (\<lambda>name. ''m_'' @ name) (object_keys (toMain c)) @
          map (\<lambda>name. ''r_'' @ name) (object_keys (toRender c))) \<and>
     (\<forall>name \<in> set (object_keys (toMain c)). \<exists>f.
        object_get bridge (''m_'' @ name) = Some f \<and>
        (\<forall>a (v :: 's world).
           snd (apply_bridge f a v) = v\<lparr>sent := sent v @ [Invoke name a]\<rparr> \<or>
           snd (apply_bridge f a v) = v\<lparr>sent := sent v @ [Send name a]\<rparr>)) \<and>
     (\<forall>name \<in> set (object_keys (toRender c)). \<exists>f.
        object_get bridge (''r_'' @ name) = Some f \<and>
        (\<forall>cb (v :: 's world).
           apply_bridge f cb v =
             (Inr JUndefined,
              v\<lparr>renderer_listeners := renderer_listeners v @ [(name, UnwrapListener cb)]\<rparr>)))"
proof -
  obtain bridge where br: "preload_expose c = Inr bridge"
    using preload_expose_total by blast
  have 1: "preload c w = (Inr JUndefined, w\<lparr>globals := object_set (globals w) (ipcKey c) bridge\<rparr>)"
    by (simp add: preload_def br exposeInMainWorld_def)
  note 2 = preload_expose_keys(2) [OF br]
  note 3 = preload_expose_keys(1) [OF br]
  have 4: "object_keys bridge =
          map (\<lambda>name. ''m_'' @ name) (object_keys (toMain c)) @
          map (\<lambda>name. ''r_'' @ name) (object_keys (toRender c))"
    if "distinct (object_keys (toMain c))" and "distinct (object_keys (toRender c))"
    using br that by (rule preload_expose_keys_list)
  have 5: "\<exists>f. object_get bridge (''m_'' @ name) = Some f \<and>
        (\<forall>a (v :: 's world).
           snd (apply_bridge f a v) = v\<lparr>sent := sent v @ [Invoke name a]\<rparr> \<or>
           snd (apply_bridge f a v) = v\<lparr>sent := sent v @ [Send name a]\<rparr>)"
    if "name \<in> set (object_keys (toMain c))" for name
  proof -
    from that obtain d where d: "object_get (toMain c) name = Some d"
      using object_get_keys by blast
    show ?thesis
    proof (cases "action_type d = ''twoWay''")
      case True
      then have "object_get bridge (''m_'' @ name) = Some (InvokeClosure name)"
        using preload_expose_m [OF br d] by simp
      moreover have "snd (apply_bridge (InvokeClosure name) a v) = v\<lparr>sent := sent v @ [Invoke name a]\<rparr>"
        for a and v :: "'s world"
        by (simp add: ipcRenderer_invoke_def)
      ultimately show ?thesis by simp
    next
      case False
      then have "object_get bridge (''m_'' @ name) = Some (SendClosure name)"
        using preload_expose_m [OF br d] by simp
      moreover have "snd (apply_bridge (SendClosure name) a v) = v\<lparr>sent := sent v @ [Send name a]\<rparr>"
        for a and v :: "'s world"
        by (simp add: ipcRenderer_send_def)
      ultimately show ?thesis by simp
    qed
  qed
  have 6: "\<exists>f. object_get bridge (''r_'' @ name) = Some f \<and>
        (\<forall>cb (v :: 's world).
           apply_bridge f cb v =
             (Inr JUndefined,
              v\<lparr>renderer_listeners := renderer_listeners v @ [(name, UnwrapListener cb)]\<rparr>))"
    if "name \<in> set (object_keys (toRender c))" for name
    unfolding preload_expose_r [OF br that]
    by (simp add: ipcRenderer_on_def)
  show ?thesis
  proof (rule exI [of _ bridge], intro conjI ballI impI)
    show "preload_expose c = Inr bridge" by (rule br)
    show "preload c w = (Inr JUndefined, w\<lparr>globals := object_set (globals w) (ipcKey c) bridge\<rparr>)"
      by (rule 1)
    show "distinct (object_keys bridge)" by (rule 2)
    show "set (object_keys bridge) =
       (\<lambda>name. ''m_'' @ name) ` set (object_keys (toMain c)) \<union>
       (\<lambda>name. ''r_'' @ name) ` set (object_keys (toRender c))" by (rule 3)
  next
    assume "distinct (object_keys (toMain c)) \<and> distinct (object_keys (toRender c))"
    then show "object_keys bridge =
          map (\<lambda>name. ''m_'' @ name) (object_keys (toMain c)) @
          map (\<lambda>name. ''r_'' @ name) (object_keys (toRender c))"
      using 4 by blast
  next
    fix name assume "name \<in> set (object_keys (toMain c))"
    then show "\<exists>f. object_get bridge (''m_'' @ name) = Some f \<and>
        (\<forall>a (v :: 's world).
           snd (apply_bridge f a v) = v\<lparr>sent := sent v @ [Invoke name a]\<rparr> \<or>
           snd (apply_bridge f a v) = v\<lparr>sent := sent v @ [Send name a]\<rparr>)"
      by (rule 5)
  next
    fix name assume "name \<in> set (object_keys (toRender c))"
    then show "\<exists>f. object_get bridge (''r_'' @ name) = Some f \<and>
        (\<forall>cb (v :: 's world).
           apply_bridge f cb v =
             (Inr JUndefined,
              v\<lparr>renderer_listeners := renderer_listeners v @ [(name, UnwrapListener cb)]\<rparr>))"
      by (rule 6)
  qed
qed


theorem preload_bridge_keys_and_channels_witness:
  "preload_expose readme_contract = Inr readme_bridge \<and>
   preload readme_contract (empty_world :: unit world) =
     (Inr JUndefined, empty_world\<lparr>globals := [(''myIpc'', readme_bridge)]\<rparr>) \<and>
   distinct (object_keys (toMain readme_contract)) \<and>
   distinct (object_keys (toRender readme_contract)) \<and>
   object_keys readme_bridge = [''m_logMessage'', ''m_fetchData'', ''r_notify''] \<and>
   ''fetchData'' \<in> set (object_keys (toMain readme_contract)) \<and>
   ''notify'' \<in> set (object_keys (toRender readme_contract)) \<and>
   snd (apply_bridge (the (object_get readme_bridge ''m_fetchData'')) (Data (JNum 1))
          (empty_world :: unit world))
     = empty_world\<lparr>sent := [Invoke ''fetchData'' (Data (JNum 1))]\<rparr> \<and>
   snd (apply_bridge (the (object_get readme_bridge ''r_notify'')) (Data JNull)
          (empty_world :: unit world))
     = empty_world\<lparr>renderer_listeners := [(''notify'', UnwrapListener (Data JNull))]\<rparr>"
proof -
  have ex: "preload_expose readme_contract = Inr readme_bridge"
    by (simp add: preload_expose_def readme_contract_def readme_bridge_def object_keys_def
        object_get_def object_set_def oneWayAction_def twoWayAction_def)
  have d: "distinct (object_keys (toMain readme_contract)) \<and>
           distinct (object_keys (toRender readme_contract))"
    by (simp add: readme_contract_def object_keys_def)
  have mem: "''fetchData'' \<in> set (object_keys (toMain readme_contract)) \<and>
             ''notify'' \<in> set (object_keys (toRender readme_contract))"
    by (simp add: readme_contract_def object_keys_def)
  from preload_bridge_keys_and_channels [of readme_contract "empty_world :: unit world", where ?'s = unit]
  obtain bridge where b: "preload_expose readme_contract = Inr bridge"
    and p: "preload readme_contract (empty_world :: unit world) =
       (Inr JUndefined, empty_world\<lparr>globals := object_set (globals (empty_world :: unit world)) (ipcKey readme_contract) bridge\<rparr>)"
    and k: "distinct (object_keys (toMain readme_contract)) \<and> distinct (object_keys (toRender readme_contract)) \<longrightarrow>
        object_keys bridge =
          map (\<lambda>name. ''m_'' @ name) (object_keys (toMain readme_contract)) @
          map (\<lambda>name. ''r_'' @ name) (object_keys (toRender readme_contract))"
    and m: "\<forall>name \<in> set (object_keys (toMain readme_contract)). \<exists>f.
        object_get bridge (''m_'' @ name) = Some f \<and>
        (\<forall>a (v :: unit world).
           snd (apply_bridge f a v) = v\<lparr>sent := sent v @ [Invoke name a]\<rparr> \<or>
           snd (apply_bridge f a v) = v\<lparr>sent := sent v @ [Send name a]\<rparr>)"
    and r: "\<forall>name \<in> set (object_keys (toRender readme_contract)). \<exists>f.
        object_get bridge (''r_'' @ name) = Some f \<and>
        (\<forall>cb (v :: unit world).
           apply_bridge f cb v =
             (Inr JUndefined,
              v\<lparr>renderer_listeners := renderer_listeners v @ [(name, UnwrapListener cb)]\<rparr>))"
    by blast
  from b ex have eq: "bridge = readme_bridge" by simp
  from p have 1: "preload readme_contract (empty_world :: unit world) =
     (Inr JUndefined, empty_world\<lparr>globals := [(''myIpc'', readme_bridge)]\<rparr>)"
    unfolding eq by (simp add: empty_world_def readme_contract_def object_set_def)
  from k d have 2: "object_keys readme_bridge = [''m_logMessage'', ''m_fetchData'', ''r_notify'']"
    unfolding eq by (simp add: readme_contract_def object_keys_def)
  from r mem have 3: "snd (apply_bridge (the (object_get readme_bridge ''r_notify'')) (Data JNull)
          (empty_world :: unit world))
     = empty_world\<lparr>renderer_listeners := [(''notify'', UnwrapListener (Data JNull))]\<rparr>"
    unfolding eq by (auto simp: empty_world_def)
  have 4: "snd (apply_bridge (the (object_get readme_bridge ''m_fetchData'')) (Data (JNum 1))
          (empty_world :: unit world))
     = empty_world\<lparr>sent := [Invoke ''fetchData'' (Data (JNum 1))]\<rparr>"
    by (simp add: readme_bridge_def object_get_def ipcRenderer_invoke_def empty_world_def)
  from ex 1 d 2 mem 3 4 show ?thesis by simp
qed


text \<open>
  C3. \<open>preload\<close> hands one object to \<open>exposeInMainWorld\<close>, which installs it under the
  namespace key. For a renderer-to-main entry, the callable that object holds under
  \<open>m_\<close> + name depends on the descriptor's tag. For a two-way entry it is the call of
  \<open>ipcRenderer.invoke(name, arg)\<close>: it hands the argument to the request primitive and
  returns the pending result that the primitive returns. For a one-way entry it is the
  call of \<open>ipcRenderer.send(name, arg)\<close>: it hands the argument to the fire-and-forget
  primitive and returns \<open>undefined\<close>.
\<close>

theorem preload_toMain_callable_dispatch:
  "object_get (toMain c) name = Some d \<Longrightarrow>
   \<exists>bridge.
     preload_expose c = Inr bridge \<and>
     preload c w = (Inr JUndefined, exposeInMainWorld (ipcKey c) bridge w) \<and>
     object_get (globals (snd (preload c w))) (ipcKey c) = Some bridge \<and>
     (action_type d = ''twoWay'' \<longrightarrow>
        (\<exists>f. object_get bridge (''m_'' @ name) = Some f \<and>
           (\<forall>a (v :: 's world).
              apply_bridge f a v = ipcRenderer_invoke name a v \<and>
              apply_bridge f a v =
                (Inr (JPending (length (sent v))), v\<lparr>sent := sent v @ [Invoke name a]\<rparr>)))) \<and>
     (action_type d = ''oneWay'' \<longrightarrow>
        (\<exists>f. object_get bridge (''m_'' @ name) = Some f \<and>
           (\<forall>a (v :: 's world).
              apply_bridge f a v = ipcRenderer_send name a v \<and>
              apply_bridge f a v = (Inr JUndefined, v\<lparr>sent := sent v @ [Send name a]\<rparr>))))"
proof -
  assume d: "object_get (toMain c) name = Some d"
  obtain bridge where br: "preload_expose c = Inr bridge"
    using preload_expose_total by blast
  note m = preload_expose_m [OF br d]
  have pre: "preload c w = (Inr JUndefined, exposeInMainWorld (ipcKey c) bridge w)"
    by (simp add: preload_def br)
  have inst: "object_get (globals (snd (preload c w))) (ipcKey c) = Some bridge"
    unfolding pre by (simp add: exposeInMainWorld_def object_get_set)
  have two: "\<exists>f. object_get bridge (''m_'' @ name) = Some f \<and>
           (\<forall>a (v :: 's world).
              apply_bridge f a v = ipcRenderer_invoke name a v \<and>
              apply_bridge f a v =
                (Inr (JPending (length (sent v))), v\<lparr>sent := sent v @ [Invoke name a]\<rparr>))"
    if "action_type d = ''twoWay''"
  proof -
    from m that have "object_get bridge (''m_'' @ name) = Some (InvokeClosure name)" by simp
    moreover have "apply_bridge (InvokeClosure name) a v = ipcRenderer_invoke name a v \<and>
            apply_bridge (InvokeClosure name) a v =
              (Inr (JPending (length (sent v))), v\<lparr>sent := sent v @ [Invoke name a]\<rparr>)"
      for a and v :: "'s world"
      by (simp add: ipcRenderer_invoke_def)
    ultimately show ?thesis by simp
  qed
  have one: "\<exists>f. object_get bridge (''m_'' @ name) = Some f \<and>
           (\<forall>a (v :: 's world).
              apply_bridge f a v = ipcRenderer_send name a v \<and>
              apply_bridge f a v = (Inr JUndefined, v\<lparr>sent := sent v @ [Send name a]\<rparr>))"
    if "action_type d = ''oneWay''"
  proof -
    from m that have "object_get bridge (''m_'' @ name) = Some (SendClosure name)" by simp
    moreover have "apply_bridge (SendClosure name) a v = ipcRenderer_send name a v \<and>
            apply_bridge (SendClosure name) a v = (Inr JUndefined, v\<lparr>sent := sent v @ [Send name a]\<rparr>)"
      for a and v :: "'s world"
      by (simp add: ipcRenderer_send_def)
    ultimately show ?thesis by simp
  qed
  show ?thesis
  proof (rule exI [of _ bridge], intro conjI impI)
    show "preload_expose c = Inr bridge" by (rule br)
    show "preload c w = (Inr JUndefined, exposeInMainWorld (ipcKey c) bridge w)" by (rule pre)
    show "object_get (globals (snd (preload c w))) (ipcKey c) = Some bridge" by (rule inst)
  next
    assume "action_type d = ''twoWay''"
    then show "\<exists>f. object_get bridge (''m_'' @ name) = Some f \<and>
           (\<forall>a (v :: 's world).
              apply_bridge f a v = ipcRenderer_invoke name a v \<and>
              apply_bridge f a v =
                (Inr (JPending (length (sent v))), v\<lparr>sent := sent v @ [Invoke name a]\<rparr>))"
      by (rule two)
  next
    assume "action_type d = ''oneWay''"
    then show "\<exists>f. object_get bridge (''m_'' @ name) = Some f \<and>
           (\<forall>a (v :: 's world).
              apply_bridge f a v = ipcRenderer_send name a v \<and>
              apply_bridge f a v = (Inr JUndefined, v\<lparr>sent := sent v @ [Send name a]\<rparr>))"
      by (rule one)
  qed
qed

theorem preload_toMain_callable_dispatch_witness:
  "object_get (toMain readme_contract) ''fetchData'' = Some twoWayAction \<and>
   action_type twoWayAction = ''twoWay'' \<and>
   preload readme_contract (empty_world :: unit world)
     = (Inr JUndefined, empty_world\<lparr>globals := [(''myIpc'', readme_bridge)]\<rparr>) \<and>
   object_get (globals (snd (preload readme_contract (empty_world :: unit world)))) ''myIpc''
     = Some readme_bridge \<and>
   apply_bridge (the (object_get readme_bridge ''m_fetchData'')) (Data (JObj [(''id'', JNum 42)]))
       (snd (preload readme_contract (empty_world :: unit world)))
     = (Inr (JPending 0),
        empty_world\<lparr>globals := [(''myIpc'', readme_bridge)],
                     sent := [Invoke ''fetchData'' (Data (JObj [(''id'', JNum 42)]))]\<rparr>) \<and>
   object_get (toMain readme_contract) ''logMessage'' = Some oneWayAction \<and>
   action_type oneWayAction = ''oneWay'' \<and>
   apply_bridge (the (object_get readme_bridge ''m_logMessage'')) (Data (JStr ''Hello main!''))
       (snd (preload readme_contract (empty_world :: unit world)))
     = (Inr JUndefined,
        empty_world\<lparr>globals := [(''myIpc'', readme_bridge)],
                     sent := [Send ''logMessage'' (Data (JStr ''Hello main!''))]\<rparr>)"
proof -
  let ?w1 = "snd (preload readme_contract (empty_world :: unit world))"
  have ex: "preload_expose readme_contract = Inr readme_bridge"
    by (simp add: preload_expose_def readme_contract_def readme_bridge_def object_keys_def
        object_get_def object_set_def oneWayAction_def twoWayAction_def)
  have f: "object_get (toMain readme_contract) ''fetchData'' = Some twoWayAction"
    and l: "object_get (toMain readme_contract) ''logMessage'' = Some oneWayAction"
    by (simp_all add: readme_contract_def object_get_def)
  have t: "action_type twoWayAction = ''twoWay''" and u: "action_type oneWayAction = ''oneWay''"
    by (simp_all add: twoWayAction_def oneWayAction_def)
  from preload_toMain_callable_dispatch [OF f, of "empty_world :: unit world", where ?'s = unit]
  obtain bridge where
    b: "preload_expose readme_contract = Inr bridge" and
    p: "preload readme_contract (empty_world :: unit world) =
          (Inr JUndefined, exposeInMainWorld (ipcKey readme_contract) bridge empty_world)" and
    g: "object_get (globals ?w1) (ipcKey readme_contract) = Some bridge" and
    two: "action_type twoWayAction = ''twoWay'' \<longrightarrow>
        (\<exists>f. object_get bridge (''m_'' @ ''fetchData'') = Some f \<and>
           (\<forall>a (v :: unit world).
              apply_bridge f a v = ipcRenderer_invoke ''fetchData'' a v \<and>
              apply_bridge f a v =
                (Inr (JPending (length (sent v))), v\<lparr>sent := sent v @ [Invoke ''fetchData'' a]\<rparr>)))"
    by blast
  from b ex have eq: "bridge = readme_bridge" by simp
  have ik: "ipcKey readme_contract = ''myIpc''" by (simp add: readme_contract_def)
  from p have 1: "preload readme_contract (empty_world :: unit world)
     = (Inr JUndefined, empty_world\<lparr>globals := [(''myIpc'', readme_bridge)]\<rparr>)"
    unfolding eq ik by (simp add: exposeInMainWorld_def empty_world_def object_set_def)
  from g have 2: "object_get (globals ?w1) ''myIpc'' = Some readme_bridge"
    unfolding eq ik .
  have w1: "?w1 = empty_world\<lparr>globals := [(''myIpc'', readme_bridge)]\<rparr>"
    unfolding 1 by simp
  from two t have 3: "apply_bridge (the (object_get readme_bridge ''m_fetchData'')) (Data (JObj [(''id'', JNum 42)])) ?w1
     = (Inr (JPending 0),
        empty_world\<lparr>globals := [(''myIpc'', readme_bridge)],
                     sent := [Invoke ''fetchData'' (Data (JObj [(''id'', JNum 42)]))]\<rparr>)"
    unfolding eq w1 by (auto simp: empty_world_def ipcRenderer_invoke_def)
  from preload_toMain_callable_dispatch [OF l, of "empty_world :: unit world", where ?'s = unit] ex u
  have 4: "apply_bridge (the (object_get readme_bridge ''m_logMessage'')) (Data (JStr ''Hello main!'')) ?w1
     = (Inr JUndefined,
        empty_world\<lparr>globals := [(''myIpc'', readme_bridge)],
                     sent := [Send ''logMessage'' (Data (JStr ''Hello main!''))]\<rparr>)"
    unfolding w1 by (auto simp: empty_world_def ipcRenderer_send_def)
  from f t 1 2 3 l u 4 show ?thesis by simp
qed


section \<open>Registration in the main process\<close>

lemma action_type_cases: "action_type d \<noteq> ''twoWay'' \<longleftrightarrow> action_type d = ''oneWay''"
  by (cases d) simp_all

lemma fromRenderer_loop_registers:
  "set keys \<subseteq> set (object_keys tm) \<Longrightarrow>
   fromRenderer_loop keys tm handlers w =
     (Inr JUndefined,
      w\<lparr>handle_listeners := handle_listeners w @
           map (\<lambda>k. (k, HandlerListener handlers k))
             (filter (\<lambda>k. map_option action_type (object_get tm k) = Some ''twoWay'') keys),
        on_listeners := on_listeners w @
           map (\<lambda>k. (k, HandlerListener handlers k))
             (filter (\<lambda>k. map_option action_type (object_get tm k) = Some ''oneWay'') keys)\<rparr>)"
proof (induction keys arbitrary: w)
  case Nil
  show ?case by simp
next
  case (Cons key keys)
  then obtain d where d: "object_get tm key = Some d"
    using object_get_keys [of key tm] by auto
  from Cons.prems have sub: "set keys \<subseteq> set (object_keys tm)" by simp
  show ?case
  proof (cases "action_type d = ''twoWay''")
    case True
    then show ?thesis
      by (simp add: d Cons.IH [OF sub] ipcMain_handle_def)
  next
    case False
    then have "action_type d = ''oneWay''" by (simp add: action_type_cases)
    then show ?thesis
      by (simp add: d Cons.IH [OF sub] ipcMain_on_def)
  qed
qed

text \<open>
  C4. \<open>fromRenderer\<close> never fails. For the names of the renderer-to-main table, in table
  order, it registers one listener each: with \<open>ipcMain.handle\<close> when the descriptor is
  tagged \<open>twoWay\<close>, with \<open>ipcMain.on\<close> when it is tagged \<open>oneWay\<close>, on the unprefixed
  name. The registered listener, called by the host with (event metadata, payload), calls
  the handler of that name with (payload, event metadata); it throws what the handler
  throws and otherwise returns \<open>undefined\<close>, whatever the handler returned.
\<close>

theorem fromRenderer_registers_listeners:
  "main_fromRenderer c handlers w =
     (Inr JUndefined,
      w\<lparr>handle_listeners := handle_listeners w @
           map (\<lambda>name. (name, HandlerListener handlers name))
             (filter (\<lambda>name. map_option action_type (object_get (toMain c) name) = Some ''twoWay'')
                (object_keys (toMain c))),
        on_listeners := on_listeners w @
           map (\<lambda>name. (name, HandlerListener handlers name))
             (filter (\<lambda>name. map_option action_type (object_get (toMain c) name) = Some ''oneWay'')
                (object_keys (toMain c)))\<rparr>) \<and>
   (\<forall>name h e a (s :: 's) r s'.
      object_get handlers name = Some (Fun h) \<and> h [a, e] s = (Inr r, s') \<longrightarrow>
      apply_main_listener (HandlerListener handlers name) e a s = (Inr JUndefined, s')) \<and>
   (\<forall>name h e a (s :: 's) err s'.
      object_get handlers name = Some (Fun h) \<and> h [a, e] s = (Inl err, s') \<longrightarrow>
      apply_main_listener (HandlerListener handlers name) e a s = (Inl err, s'))"
proof (intro conjI allI impI)
  show "main_fromRenderer c handlers w =
     (Inr JUndefined,
      w\<lparr>handle_listeners := handle_listeners w @
           map (\<lambda>name. (name, HandlerListener handlers name))
             (filter (\<lambda>name. map_option action_type (object_get (toMain c) name) = Some ''twoWay'')
                (object_keys (toMain c))),
        on_listeners := on_listeners w @
           map (\<lambda>name. (name, HandlerListener handlers name))
             (filter (\<lambda>name. map_option action_type (object_get (toMain c) name) = Some ''oneWay'')
                (object_keys (toMain c)))\<rparr>)"
    unfolding main_fromRenderer_def by (rule fromRenderer_loop_registers) simp
next
  fix name h e a and s :: 's and r s'
  assume "object_get handlers name = Some (Fun h) \<and> h [a, e] s = (Inr r, s')"
  then show "apply_main_listener (HandlerListener handlers name) e a s = (Inr JUndefined, s')"
    by (simp add: object_get_any_def)
next
  fix name h e a and s :: 's and err s'
  assume "object_get handlers name = Some (Fun h) \<and> h [a, e] s = (Inl err, s')"
  then show "apply_main_listener (HandlerListener handlers name) e a s = (Inl err, s')"
    by (simp add: object_get_any_def)
qed

theorem fromRenderer_registers_listeners_witness:
  "main_fromRenderer readme_contract readme_main_handlers empty_world =
     (Inr JUndefined,
      empty_world
        \<lparr>handle_listeners := [(''fetchData'', HandlerListener readme_main_handlers ''fetchData'')],
         on_listeners := [(''logMessage'', HandlerListener readme_main_handlers ''logMessage'')]\<rparr>) \<and>
   object_get readme_main_handlers ''logMessage'' = Some (Fun logMessage_handler) \<and>
   logMessage_handler [JStr ''Hello main!'', JObj [(''sender'', JNum 1)]] []
     = (Inr JUndefined, [[JStr ''Hello main!'', JObj [(''sender'', JNum 1)]]]) \<and>
   apply_main_listener (HandlerListener readme_main_handlers ''logMessage'')
       (JObj [(''sender'', JNum 1)]) (JStr ''Hello main!'') []
     = (Inr JUndefined, [[JStr ''Hello main!'', JObj [(''sender'', JNum 1)]]])"
proof -
  note inst = fromRenderer_registers_listeners
    [of readme_contract readme_main_handlers "empty_world :: jsval list list world"]
  have get: "object_get readme_main_handlers ''logMessage'' = Some (Fun logMessage_handler)"
    by (simp add: readme_main_handlers_def object_get_def)
  have run: "logMessage_handler [JStr ''Hello main!'', JObj [(''sender'', JNum 1)]] []
     = (Inr JUndefined, [[JStr ''Hello main!'', JObj [(''sender'', JNum 1)]]])"
    by (simp add: logMessage_handler_def)
  from inst have 1: "main_fromRenderer readme_contract readme_main_handlers empty_world =
     (Inr JUndefined,
      empty_world
        \<lparr>handle_listeners := [(''fetchData'', HandlerListener readme_main_handlers ''fetchData'')],
         on_listeners := [(''logMessage'', HandlerListener readme_main_handlers ''logMessage'')]\<rparr>)"
    by (simp add: readme_contract_def object_keys_def object_get_def empty_world_def
        oneWayAction_def twoWayAction_def)
  from inst get run have 2: "apply_main_listener (HandlerListener readme_main_handlers ''logMessage'')
       (JObj [(''sender'', JNum 1)]) (JStr ''Hello main!'') []
     = (Inr JUndefined, [[JStr ''Hello main!'', JObj [(''sender'', JNum 1)]]])"
    by blast
  from 1 get run 2 show ?thesis by simp
qed


section \<open>Subscriptions in the renderer\<close>

lemma fromMain_loop_registers:
  "object_get (globals w) k = Some bridge \<Longrightarrow>
   \<forall>key \<in> set keys. object_get bridge (''r_'' @ key) = Some (OnClosure key) \<Longrightarrow>
   fromMain_loop keys k handlers w =
     (Inr JUndefined,
      w\<lparr>renderer_listeners := renderer_listeners w @
           map (\<lambda>key. (key, UnwrapListener (object_get_any handlers key))) keys\<rparr>)"
proof (induction keys arbitrary: w)
  case Nil
  show ?case by simp
next
  case (Cons key keys)
  let ?w' = "ipcRenderer_on key (UnwrapListener (object_get_any handlers key)) w"
  have g: "object_get (globals ?w') k = Some bridge"
    using Cons.prems(1) by (simp add: ipcRenderer_on_def)
  have r: "\<forall>key \<in> set keys. object_get bridge (''r_'' @ key) = Some (OnClosure key)"
    using Cons.prems(2) by simp
  have here: "object_get bridge (''r_'' @ key) = Some (OnClosure key)"
    using Cons.prems(2) by simp
  have "fromMain_loop (key # keys) k handlers w = fromMain_loop keys k handlers ?w'"
    using Cons.prems(1) here by simp
  also have "\<dots> = (Inr JUndefined,
      ?w'\<lparr>renderer_listeners := renderer_listeners ?w' @
           map (\<lambda>key. (key, UnwrapListener (object_get_any handlers key))) keys\<rparr>)"
    using g r by (rule Cons.IH)
  also have "\<dots> = (Inr JUndefined,
      w\<lparr>renderer_listeners := renderer_listeners w @
           map (\<lambda>key. (key, UnwrapListener (object_get_any handlers key))) (key # keys)\<rparr>)"
    by (simp add: ipcRenderer_on_def)
  finally show ?case .
qed



section \<open>Objects filled by assignment\<close>


















section \<open>The objects returned by toRenderer and toMain\<close>








section \<open>Sequences of surface calls\<close>

lemma apply_bridge_registries:
  "prefix (renderer_listeners w) (renderer_listeners (snd (apply_bridge f a w))) \<and>
   handle_listeners (snd (apply_bridge f a w)) = handle_listeners w \<and>
   on_listeners (snd (apply_bridge f a w)) = on_listeners w \<and>
   globals (snd (apply_bridge f a w)) = globals w"
  by (cases f)
    (simp_all add: ipcRenderer_invoke_def ipcRenderer_send_def ipcRenderer_on_def)

lemma fromMain_loop_registries:
  "prefix (renderer_listeners w) (renderer_listeners (snd (fromMain_loop keys k handlers w))) \<and>
   handle_listeners (snd (fromMain_loop keys k handlers w)) = handle_listeners w \<and>
   on_listeners (snd (fromMain_loop keys k handlers w)) = on_listeners w"
proof (induction keys arbitrary: w)
  case Nil
  show ?case by simp
next
  case (Cons key keys)
  show ?case
  proof (cases "object_get (globals w) k")
    case None
    then show ?thesis by simp
  next
    case (Some bridge)
    show ?thesis
    proof (cases "object_get bridge (''r_'' @ key)")
      case None
      with Some show ?thesis by simp
    next
      case f: (Some f)
      obtain r w' where res: "apply_bridge f (object_get_any handlers key) w = (r, w')"
        by (cases "apply_bridge f (object_get_any handlers key) w")
      from apply_bridge_registries [of w f "object_get_any handlers key"] res
      have step: "prefix (renderer_listeners w) (renderer_listeners w')"
        "handle_listeners w' = handle_listeners w" "on_listeners w' = on_listeners w"
        by simp_all
      show ?thesis
      proof (cases r)
        case (Inl err)
        with Some f res step show ?thesis by simp
      next
        case (Inr v)
        have loop: "fromMain_loop (key # keys) k handlers w = fromMain_loop keys k handlers w'"
          using Some f res Inr by simp
        from Cons.IH [of w'] step show ?thesis
          unfolding loop by (auto intro: prefix_order.trans)
      qed
    qed
  qed
qed

lemma surface_step_registries:
  "surface_step call (c, w) = (c', w') \<Longrightarrow>
   c' = c \<and>
   prefix (renderer_listeners w) (renderer_listeners w') \<and>
   prefix (handle_listeners w) (handle_listeners w') \<and>
   prefix (on_listeners w) (on_listeners w')"
proof (cases call)
  case CallPreload
  assume "surface_step call (c, w) = (c', w')"
  with CallPreload show ?thesis
    by (auto simp: preload_def exposeInMainWorld_def split: sum.splits)
next
  case (CallToRenderer window)
  assume "surface_step call (c, w) = (c', w')"
  with CallToRenderer show ?thesis
    by (auto simp: main_toRenderer_def)
next
  case (CallFromRenderer handlers)
  assume "surface_step call (c, w) = (c', w')"
  with CallFromRenderer show ?thesis
    by (auto simp: main_fromRenderer_def fromRenderer_loop_registers)
next
  case CallToMain
  assume "surface_step call (c, w) = (c', w')"
  with CallToMain show ?thesis
    by (auto simp: renderer_toMain_def)
next
  case (CallFromMain handlers)
  assume "surface_step call (c, w) = (c', w')"
  with CallFromMain fromMain_loop_registries [of w "object_keys (toRender c)" "ipcKey c" handlers]
  show ?thesis
    by (auto simp: renderer_fromMain_def)
qed

lemma run_calls_registries:
  "run_calls calls (c, w) = (c', w') \<Longrightarrow>
   c' = c \<and>
   prefix (renderer_listeners w) (renderer_listeners w') \<and>
   prefix (handle_listeners w) (handle_listeners w') \<and>
   prefix (on_listeners w) (on_listeners w')"
proof (induction calls arbitrary: w)
  case Nil
  then show ?case by (simp add: run_calls_def)
next
  case (Cons call calls)
  obtain c1 w1 where step: "surface_step call (c, w) = (c1, w1)"
    by (cases "surface_step call (c, w)")
  note s = surface_step_registries [OF step]
  from Cons.prems step s have "run_calls calls (c, w1) = (c', w')"
    by (simp add: run_calls_def)
  from Cons.IH [OF this] s show ?case
    by (auto intro: prefix_order.trans)
qed

text \<open>
  C8. Whatever surfaces are called, in whatever order and whether they return or throw,
  every listener registered before is still registered afterwards, in the same place: the
  registries of \<open>ipcRenderer.on\<close>, \<open>ipcMain.handle\<close> and \<open>ipcMain.on\<close> only get longer at
  the end. A second call of \<open>fromRenderer\<close> adds the listeners of its handlers after
  those of the first call, and, with the bridge object installed, so does a second call
  of \<open>fromMain\<close>.
\<close>

theorem listeners_only_grow:
  "prefix (renderer_listeners w) (renderer_listeners (snd (run_calls calls (c, w)))) \<and>
   prefix (handle_listeners w) (handle_listeners (snd (run_calls calls (c, w)))) \<and>
   prefix (on_listeners w) (on_listeners (snd (run_calls calls (c, w)))) \<and>
   handle_listeners (snd (main_fromRenderer c h2 (snd (main_fromRenderer c h1 w)))) =
     handle_listeners w @
     map (\<lambda>name. (name, HandlerListener h1 name))
       (filter (\<lambda>name. map_option action_type (object_get (toMain c) name) = Some ''twoWay'')
          (object_keys (toMain c))) @
     map (\<lambda>name. (name, HandlerListener h2 name))
       (filter (\<lambda>name. map_option action_type (object_get (toMain c) name) = Some ''twoWay'')
          (object_keys (toMain c))) \<and>
   on_listeners (snd (main_fromRenderer c h2 (snd (main_fromRenderer c h1 w)))) =
     on_listeners w @
     map (\<lambda>name. (name, HandlerListener h1 name))
       (filter (\<lambda>name. map_option action_type (object_get (toMain c) name) = Some ''oneWay'')
          (object_keys (toMain c))) @
     map (\<lambda>name. (name, HandlerListener h2 name))
       (filter (\<lambda>name. map_option action_type (object_get (toMain c) name) = Some ''oneWay'')
          (object_keys (toMain c))) \<and>
   (preload_expose c = Inr bridge \<and> object_get (globals w) (ipcKey c) = Some bridge \<longrightarrow>
      renderer_listeners (snd (renderer_fromMain c g2 (snd (renderer_fromMain c g1 w)))) =
        renderer_listeners w @
        map (\<lambda>name. (name, UnwrapListener (object_get_any g1 name))) (object_keys (toRender c)) @
        map (\<lambda>name. (name, UnwrapListener (object_get_any g2 name))) (object_keys (toRender c)))"
proof -
  obtain c' w' where run: "run_calls calls (c, w) = (c', w')"
    by (cases "run_calls calls (c, w)")
  from run_calls_registries [OF run] run
  have grow: "prefix (renderer_listeners w) (renderer_listeners (snd (run_calls calls (c, w)))) \<and>
   prefix (handle_listeners w) (handle_listeners (snd (run_calls calls (c, w)))) \<and>
   prefix (on_listeners w) (on_listeners (snd (run_calls calls (c, w))))"
    by simp
  have reg: "main_fromRenderer c h v =
     (Inr JUndefined,
      v\<lparr>handle_listeners := handle_listeners v @
           map (\<lambda>name. (name, HandlerListener h name))
             (filter (\<lambda>name. map_option action_type (object_get (toMain c) name) = Some ''twoWay'')
                (object_keys (toMain c))),
        on_listeners := on_listeners v @
           map (\<lambda>name. (name, HandlerListener h name))
             (filter (\<lambda>name. map_option action_type (object_get (toMain c) name) = Some ''oneWay'')
                (object_keys (toMain c)))\<rparr>)" for h and v :: "'a world"
    unfolding main_fromRenderer_def by (rule fromRenderer_loop_registers) simp
  have twice: "handle_listeners (snd (main_fromRenderer c h2 (snd (main_fromRenderer c h1 w)))) =
     handle_listeners w @
     map (\<lambda>name. (name, HandlerListener h1 name))
       (filter (\<lambda>name. map_option action_type (object_get (toMain c) name) = Some ''twoWay'')
          (object_keys (toMain c))) @
     map (\<lambda>name. (name, HandlerListener h2 name))
       (filter (\<lambda>name. map_option action_type (object_get (toMain c) name) = Some ''twoWay'')
          (object_keys (toMain c)))"
    "on_listeners (snd (main_fromRenderer c h2 (snd (main_fromRenderer c h1 w)))) =
     on_listeners w @
     map (\<lambda>name. (name, HandlerListener h1 name))
       (filter (\<lambda>name. map_option action_type (object_get (toMain c) name) = Some ''oneWay'')
          (object_keys (toMain c))) @
     map (\<lambda>name. (name, HandlerListener h2 name))
       (filter (\<lambda>name. map_option action_type (object_get (toMain c) name) = Some ''oneWay'')
          (object_keys (toMain c)))"
    by (simp_all add: reg)
  have sub: "renderer_listeners (snd (renderer_fromMain c g2 (snd (renderer_fromMain c g1 w)))) =
        renderer_listeners w @
        map (\<lambda>name. (name, UnwrapListener (object_get_any g1 name))) (object_keys (toRender c)) @
        map (\<lambda>name. (name, UnwrapListener (object_get_any g2 name))) (object_keys (toRender c))"
    if br: "preload_expose c = Inr bridge" and g: "object_get (globals w) (ipcKey c) = Some bridge"
  proof -
    have r: "\<forall>key \<in> set (object_keys (toRender c)). object_get bridge (''r_'' @ key) = Some (OnClosure key)"
      using preload_expose_r [OF br] by blast
    have one: "renderer_fromMain c g1 w =
      (Inr JUndefined,
       w\<lparr>renderer_listeners := renderer_listeners w @
           map (\<lambda>key. (key, UnwrapListener (object_get_any g1 key))) (object_keys (toRender c))\<rparr>)"
      unfolding renderer_fromMain_def using g r by (rule fromMain_loop_registers)
    let ?w1 = "w\<lparr>renderer_listeners := renderer_listeners w @
           map (\<lambda>key. (key, UnwrapListener (object_get_any g1 key))) (object_keys (toRender c))\<rparr>"
    have g1: "object_get (globals ?w1) (ipcKey c) = Some bridge"
      using g by simp
    have two: "renderer_fromMain c g2 ?w1 =
      (Inr JUndefined,
       ?w1\<lparr>renderer_listeners := renderer_listeners ?w1 @
           map (\<lambda>key. (key, UnwrapListener (object_get_any g2 key))) (object_keys (toRender c))\<rparr>)"
      unfolding renderer_fromMain_def using g1 r by (rule fromMain_loop_registers)
    show ?thesis
      unfolding one snd_conv two by simp
  qed
  from grow twice sub show ?thesis by blast
qed


theorem listeners_only_grow_witness:
  "preload_expose readme_contract = Inr readme_bridge \<and>
   object_get (globals (empty_world\<lparr>globals := [(''myIpc'', readme_bridge)]\<rparr> :: jsval list list world))
     (ipcKey readme_contract) = Some readme_bridge \<and>
   renderer_listeners
     (snd (renderer_fromMain readme_contract readme_renderer_handlers
        (snd (renderer_fromMain readme_contract readme_renderer_handlers
           (empty_world\<lparr>globals := [(''myIpc'', readme_bridge)]\<rparr>))))) =
     [(''notify'', UnwrapListener (Fun notify_handler)),
      (''notify'', UnwrapListener (Fun notify_handler))] \<and>
   handle_listeners
     (snd (main_fromRenderer readme_contract readme_main_handlers
        (snd (main_fromRenderer readme_contract readme_main_handlers
           (empty_world\<lparr>globals := [(''myIpc'', readme_bridge)]\<rparr>))))) =
     [(''fetchData'', HandlerListener readme_main_handlers ''fetchData''),
      (''fetchData'', HandlerListener readme_main_handlers ''fetchData'')] \<and>
   prefix (on_listeners (empty_world :: jsval list list world))
     (on_listeners (snd (run_calls
        [CallPreload, CallFromRenderer readme_main_handlers, CallFromMain readme_renderer_handlers]
        (readme_contract, empty_world))))"
proof -
  let ?W = "empty_world\<lparr>globals := [(''myIpc'', readme_bridge)]\<rparr> :: jsval list list world"
  have ex: "preload_expose readme_contract = Inr readme_bridge"
    by (simp add: preload_expose_def readme_contract_def readme_bridge_def object_keys_def
        object_get_def object_set_def oneWayAction_def twoWayAction_def)
  have g: "object_get (globals ?W) (ipcKey readme_contract) = Some readme_bridge"
    by (simp add: readme_contract_def object_get_def)
  note inst = listeners_only_grow
    [of ?W "[]" readme_contract readme_main_handlers readme_main_handlers readme_bridge
        readme_renderer_handlers readme_renderer_handlers]
  from inst ex g have 1: "renderer_listeners
     (snd (renderer_fromMain readme_contract readme_renderer_handlers
        (snd (renderer_fromMain readme_contract readme_renderer_handlers ?W)))) =
     renderer_listeners ?W @
        map (\<lambda>name. (name, UnwrapListener (object_get_any readme_renderer_handlers name)))
          (object_keys (toRender readme_contract)) @
        map (\<lambda>name. (name, UnwrapListener (object_get_any readme_renderer_handlers name)))
          (object_keys (toRender readme_contract))"
    by blast
  have 2: "renderer_listeners
     (snd (renderer_fromMain readme_contract readme_renderer_handlers
        (snd (renderer_fromMain readme_contract readme_renderer_handlers ?W)))) =
     [(''notify'', UnwrapListener (Fun notify_handler)),
      (''notify'', UnwrapListener (Fun notify_handler))]"
    unfolding 1
    by (simp add: readme_contract_def object_keys_def readme_renderer_handlers_def
        object_get_any_def object_get_def empty_world_def)
  from inst have 3: "handle_listeners
     (snd (main_fromRenderer readme_contract readme_main_handlers
        (snd (main_fromRenderer readme_contract readme_main_handlers ?W)))) =
     handle_listeners ?W @
     map (\<lambda>name. (name, HandlerListener readme_main_handlers name))
       (filter (\<lambda>name. map_option action_type (object_get (toMain readme_contract) name) = Some ''twoWay'')
          (object_keys (toMain readme_contract))) @
     map (\<lambda>name. (name, HandlerListener readme_main_handlers name))
       (filter (\<lambda>name. map_option action_type (object_get (toMain readme_contract) name) = Some ''twoWay'')
          (object_keys (toMain readme_contract)))"
    by blast
  have 4: "handle_listeners
     (snd (main_fromRenderer readme_contract readme_main_handlers
        (snd (main_fromRenderer readme_contract readme_main_handlers ?W)))) =
     [(''fetchData'', HandlerListener readme_main_handlers ''fetchData''),
      (''fetchData'', HandlerListener readme_main_handlers ''fetchData'')]"
    unfolding 3
    by (simp add: readme_contract_def object_keys_def object_get_def empty_world_def
        oneWayAction_def twoWayAction_def)
  have 5: "prefix (on_listeners (empty_world :: jsval list list world))
     (on_listeners (snd (run_calls
        [CallPreload, CallFromRenderer readme_main_handlers, CallFromMain readme_renderer_handlers]
        (readme_contract, empty_world))))"
    using listeners_only_grow
      [of "empty_world :: jsval list list world"
          "[CallPreload, CallFromRenderer readme_main_handlers, CallFromMain readme_renderer_handlers]"
          readme_contract]
    by blast
  from ex g 2 4 5 show ?thesis by simp
qed


section \<open>The surfaces over a store\<close>









































end
